theory Spec2Isabelle
  imports Main "HOL-Library.AList"
begin

section \<open>JavaScript strings\<close>

text \<open>
  A JavaScript string is modelled as a \<open>string\<close>: one \<open>char\<close> per UTF-16 code unit, for
  the code units below 256. \<open>length\<close> is then JavaScript's \<open>.length\<close> and \<open>take n\<close> is
  \<open>.slice(0, n)\<close> for \<open>n \<ge> 0\<close>.
\<close>

text \<open>The class \<open>\s\<close> of a regular expression, which is also what \<open>trim()\<close> strips:
  tab, line feed, vertical tab, form feed, carriage return, space, no-break space.\<close>

definition is_space :: "char \<Rightarrow> bool" where
  "is_space c = (c \<in> set [CHR 0x09, CHR 0x0A, CHR 0x0B, CHR 0x0C, CHR 0x0D, CHR '' '', CHR 0xA0])"

text \<open>\<open>s.trim()\<close>\<close>

definition trim :: "string \<Rightarrow> string" where
  "trim s = rev (dropWhile is_space (rev (dropWhile is_space s)))"

text \<open>\<open>s.slice(0, e)\<close>: a negative end counts from the end of the string.\<close>

definition slice0 :: "string \<Rightarrow> int \<Rightarrow> string" where
  "slice0 s e = (if e < 0 then take (nat (int (length s) + e)) s else take (nat e) s)"

text \<open>\<open>String(n)\<close> of a non-negative integer \<open>n\<close> (below \<open>1e21\<close>, where JavaScript
  prints the decimal digits).\<close>

definition digit_char :: "nat \<Rightarrow> char" where
  "digit_char d = char_of (48 + d)"

function dec :: "nat \<Rightarrow> string" where
  "dec n = (if n < 10 then [digit_char n] else dec (n div 10) @ [digit_char (n mod 10)])"
  by pat_completeness auto
termination
  by (relation "measure id") auto

declare dec.simps [simp del]

section \<open>Sheet names (exportExcel.ts)\<close>

text \<open>The characters of \<open>/[:\\/?*\[\]]/\<close>.\<close>

definition forbidden :: "char \<Rightarrow> bool" where
  "forbidden c = (c \<in> set [CHR '':'', CHR 0x5C, CHR ''/'', CHR ''?'', CHR ''*'', CHR ''['', CHR '']''])"

text \<open>\<open>.replace(/[:\\/?*\[\]]/g, " ")\<close>\<close>

definition replace_forbidden :: "string \<Rightarrow> string" where
  "replace_forbidden s = map (\<lambda>c. if forbidden c then CHR '' '' else c) s"

text \<open>\<open>.replace(/\s+/g, " ")\<close>: every maximal run of white space becomes one space.\<close>

function collapse_spaces :: "string \<Rightarrow> string" where
  "collapse_spaces [] = []"
| "collapse_spaces (c # cs) =
     (if is_space c then CHR '' '' # collapse_spaces (dropWhile is_space cs)
      else c # collapse_spaces cs)"
  by pat_completeness auto
termination
  by (relation "measure length") (auto simp: less_Suc_eq_le length_dropWhile_le)

text \<open>
  \<^verbatim>\<open>
  function safeSheetName(name: string, fallback: string) {
    const cleaned = String(name || fallback)
      .replace(/[:\\/?*\[\]]/g, " ").replace(/\s+/g, " ").trim().slice(0, 31);
    return cleaned.length ? cleaned : fallback;
  }
  \<close>
\<close>

definition safeSheetName :: "string \<Rightarrow> string \<Rightarrow> string" where
  "safeSheetName name fallback =
     (let cleaned = slice0 (trim (collapse_spaces (replace_forbidden
                      (if name = [] then fallback else name)))) 31
      in if cleaned \<noteq> [] then cleaned else fallback)"

text \<open>The name tried in round \<open>i\<close> of the loop of \<open>uniqueSheetName\<close>:
  \<^verbatim>\<open>const suffix = ` ${i++}`; name = (base.slice(0, 31 - suffix.length) + suffix).trim();\<close>\<close>

definition suffixed :: "string \<Rightarrow> nat \<Rightarrow> string" where
  "suffixed base i =
     (let suffix = CHR '' '' # dec i
      in trim (slice0 base (31 - int (length suffix)) @ suffix))"


subsection \<open>The names tried by \<open>uniqueSheetName\<close> are pairwise different\<close>

lemma dec_ne: "dec n \<noteq> []"
  by (subst dec.simps) simp

lemma digit_char_inj: "d < 10 \<Longrightarrow> e < 10 \<Longrightarrow> digit_char d = digit_char e \<Longrightarrow> d = e"
proof -
  assume a: "d < 10" "e < 10" "digit_char d = digit_char e"
  then have "of_char (digit_char d) = (of_char (digit_char e) :: nat)" by simp
  with a show ?thesis by (simp add: digit_char_def)
qed

lemma dec_inj: "dec m = dec n \<Longrightarrow> m = n"
proof (induction m arbitrary: n rule: dec.induct)
  case (1 m)
  show ?case
  proof (cases "m < 10")
    case True
    then have dm: "dec m = [digit_char m]" by (subst dec.simps) simp
    show ?thesis
    proof (cases "n < 10")
      case True
      then have "dec n = [digit_char n]" by (subst dec.simps) simp
      with dm "1.prems" \<open>m < 10\<close> True show ?thesis by (auto dest: digit_char_inj)
    next
      case False
      then have "dec n = dec (n div 10) @ [digit_char (n mod 10)]" by (subst dec.simps) simp
      with dm "1.prems" dec_ne[of "n div 10"] show ?thesis by (cases "dec (n div 10)") auto
    qed
  next
    case False
    then have dm: "dec m = dec (m div 10) @ [digit_char (m mod 10)]" by (subst dec.simps) simp
    show ?thesis
    proof (cases "n < 10")
      case True
      then have "dec n = [digit_char n]" by (subst dec.simps) simp
      with dm "1.prems" dec_ne[of "m div 10"] show ?thesis by (cases "dec (m div 10)") auto
    next
      case large: False
      then have dn: "dec n = dec (n div 10) @ [digit_char (n mod 10)]" by (subst dec.simps) simp
      from dm dn "1.prems" have e1: "dec (m div 10) = dec (n div 10)"
        and e2: "digit_char (m mod 10) = digit_char (n mod 10)" by auto
      from "1.IH"[OF False e1] have "m div 10 = n div 10" .
      moreover from e2 have "m mod 10 = n mod 10" by (auto dest!: digit_char_inj[rotated 2])
      ultimately show ?thesis by (metis div_mult_mod_eq)
    qed
  qed
qed

lemma is_space_code: "is_space c \<Longrightarrow> (of_char c :: nat) \<in> {9, 10, 11, 12, 13, 32, 160}"
  by (auto simp: is_space_def)

lemma digit_not_space: "d < 10 \<Longrightarrow> \<not> is_space (digit_char d)"
proof
  assume d: "d < 10" and "is_space (digit_char d)"
  then have "(of_char (digit_char d) :: nat) \<in> {9, 10, 11, 12, 13, 32, 160}"
    by (intro is_space_code)
  with d show False by (simp add: digit_char_def)
qed

lemma is_space_blank [simp]: "is_space CHR '' ''"
  by (simp add: is_space_def)

lemma dec_no_space: "c \<in> set (dec n) \<Longrightarrow> \<not> is_space c"
proof (induction n rule: dec.induct)
  case (1 n)
  show ?case
  proof (cases "n < 10")
    case True
    with "1.prems" show ?thesis by (subst (asm) dec.simps) (simp add: digit_not_space)
  next
    case False
    then have "dec n = dec (n div 10) @ [digit_char (n mod 10)]" by (subst dec.simps) simp
    with "1.prems" "1.IH"[OF False] show ?thesis by (auto simp: digit_not_space)
  qed
qed

text \<open>The part of a string after its last white space.\<close>

definition last_word :: "string \<Rightarrow> string" where
  "last_word s = rev (takeWhile (\<lambda>c. \<not> is_space c) (rev s))"

lemma trim_keeps_word:
  assumes d: "d \<noteq> []" "\<forall>c\<in>set d. \<not> is_space c"
  shows "\<exists>q. trim (p @ CHR '' '' # d) = q @ d \<and> (q = [] \<or> is_space (last q))"
proof -
  let ?y = "dropWhile is_space (p @ CHR '' '' # d)"
  have hd: "\<not> is_space (hd d)" and la: "\<not> is_space (last d)" using d by auto
  have y: "\<exists>q. ?y = q @ d \<and> (q = [] \<or> is_space (last q))"
  proof (cases "\<forall>c\<in>set p. is_space c")
    case True
    then have "?y = dropWhile is_space d" by (simp add: dropWhile_append)
    also have "\<dots> = d" using d hd by (cases d) auto
    finally show ?thesis by auto
  next
    case False
    then have "?y = (dropWhile is_space p @ [CHR '' '']) @ d" by (auto simp: dropWhile_append)
    then show ?thesis by (intro exI[of _ "dropWhile is_space p @ [CHR '' '']"]) simp
  qed
  then obtain q where q: "?y = q @ d" "q = [] \<or> is_space (last q)" by blast
  have "dropWhile is_space (rev ?y) = rev ?y"
    using q d la by (cases "rev d") auto
  then have "trim (p @ CHR '' '' # d) = ?y" by (simp add: trim_def)
  with q show ?thesis by auto
qed

lemma last_word_append:
  assumes "\<forall>c\<in>set d. \<not> is_space c" and "q = [] \<or> is_space (last q)"
  shows "last_word (q @ d) = d"
proof -
  have "takeWhile (\<lambda>c. \<not> is_space c) (rev q) = []"
    using assms(2) by (cases "rev q") (auto simp: last_rev[symmetric] simp del: last_rev)
  moreover have "takeWhile (\<lambda>c. \<not> is_space c) (rev d @ rev q)
      = rev d @ takeWhile (\<lambda>c. \<not> is_space c) (rev q)"
    using assms(1) by (intro takeWhile_append2) simp
  ultimately show ?thesis by (simp add: last_word_def)
qed

lemma last_word_suffixed: "last_word (suffixed base i) = dec i"
proof -
  have d: "dec i \<noteq> []" "\<forall>c\<in>set (dec i). \<not> is_space c" using dec_ne dec_no_space by auto
  obtain q where q: "suffixed base i = q @ dec i" "q = [] \<or> is_space (last q)"
    unfolding suffixed_def Let_def using trim_keeps_word[OF d] by (metis append_Nil)
  then show ?thesis using last_word_append[OF d(2) q(2)] by simp
qed

lemma suffixed_inj: "suffixed base i = suffixed base j \<Longrightarrow> i = j"
  using last_word_suffixed[of base i] last_word_suffixed[of base j] by (simp add: dec_inj)

lemma finite_suffixed_used: "finite {j. suffixed base j \<in> set used}"
proof -
  have "inj (suffixed base)" by (auto simp: inj_def dest: suffixed_inj)
  then have "finite (suffixed base -` set used)" by (intro finite_vimageI) auto
  then show ?thesis by (simp add: vimage_def)
qed

subsection \<open>uniqueSheetName\<close>

text \<open>
  \<^verbatim>\<open>
  function uniqueSheetName(base: string, used: Set<string>) {
    let name = base;
    let i = 2;
    while (used.has(name)) {
      const suffix = ` ${i++}`;
      name = (base.slice(0, 31 - suffix.length) + suffix).trim();
    }
    used.add(name);
    return name;
  }
  \<close>
  The set \<open>used\<close> is the list of its elements in insertion order. The loop is
  \<open>uniqueLoop\<close>, on the variables \<open>name\<close> and \<open>i\<close>; it ends because the names it tries
  are pairwise different and \<open>used\<close> is finite.
\<close>

function uniqueLoop :: "string \<Rightarrow> string list \<Rightarrow> string \<Rightarrow> nat \<Rightarrow> string" where
  "uniqueLoop base used name i =
     (if name \<in> set used then uniqueLoop base used (suffixed base i) (Suc i) else name)"
  by pat_completeness auto
termination
proof (relation "measure (\<lambda>(base, used, name, i).
         card {j. i \<le> j \<and> suffixed base j \<in> set used} + (if name \<in> set used then 1 else 0))")
  show "wf (measure (\<lambda>(base, used, name, i).
         card {j. i \<le> j \<and> suffixed base j \<in> set used} + (if name \<in> set used then 1 else 0)))"
    by simp
next
  fix base :: string and used :: "string list" and name :: string and i :: nat
  assume "name \<in> set used"
  let ?A = "{j. Suc i \<le> j \<and> suffixed base j \<in> set used}"
  let ?B = "{j. i \<le> j \<and> suffixed base j \<in> set used}"
  have fin: "finite ?A" by (rule finite_subset[OF _ finite_suffixed_used[of base used]]) auto
  have B: "?B = (if suffixed base i \<in> set used then insert i ?A else ?A)"
    by (auto simp: Suc_le_eq le_less)
  have "card ?A + (if suffixed base i \<in> set used then 1 else 0) = card ?B"
    using fin by (simp add: B)
  with \<open>name \<in> set used\<close>
  show "((base, used, suffixed base i, Suc i), (base, used, name, i)) \<in> measure (\<lambda>(base, used, name, i).
         card {j. i \<le> j \<and> suffixed base j \<in> set used} + (if name \<in> set used then 1 else 0))"
    by simp
qed

declare uniqueLoop.simps [simp del]

definition uniqueSheetName :: "string \<Rightarrow> string list \<Rightarrow> string \<times> string list" where
  "uniqueSheetName base used = (let name = uniqueLoop base used base 2 in (name, used @ [name]))"

section \<open>JavaScript values\<close>

text \<open>
  What \<open>JSON.parse\<close> and \<open>express.json()\<close> hand to the routes, and what property access on it
  can return. \<open>JObj\<close> lists the own properties of an object in enumeration order, each key
  once. \<open>JHost s\<close> is a value of the runtime that is not data (a built-in function, a
  prototype object), given by the text \<open>s\<close> that \<open>String\<close> prints for it. \<open>JNum\<close> is an
  integer-valued number (below \<open>1e21\<close> in magnitude, where \<open>String\<close> prints the digits).
\<close>

datatype jsval =
    JUndefined | JNull | JBool bool | JNum int | JStr string
  | JArr "jsval list" | JObj "(string \<times> jsval) list" | JHost string

text \<open>A thrown value, with its \<open>message\<close> when it has one.\<close>

datatype exn = Exn "string option"

text \<open>\<open>err?.message ?? dflt\<close>\<close>

fun message_or :: "exn \<Rightarrow> string \<Rightarrow> string" where
  "message_or (Exn None) dflt = dflt"
| "message_or (Exn (Some m)) dflt = m"

text \<open>
  The properties that a value inherits from its prototype chain belong to the runtime, not
  to this repository: they are a parameter \<open>inh\<close> of the model, by the kind of the receiver.
\<close>

datatype jskind = KBoolean | KNumber | KString | KArray | KObject | KHost

type_synonym inherited = "jskind \<Rightarrow> string \<Rightarrow> jsval option"

fun kind_of :: "jsval \<Rightarrow> jskind option" where
  "kind_of JUndefined = None"
| "kind_of JNull = None"
| "kind_of (JBool b) = Some KBoolean"
| "kind_of (JNum n) = Some KNumber"
| "kind_of (JStr s) = Some KString"
| "kind_of (JArr xs) = Some KArray"
| "kind_of (JObj kvs) = Some KObject"
| "kind_of (JHost s) = Some KHost"

text \<open>The index \<open>i < n\<close> that the property key \<open>c\<close> denotes, if any (\<open>c\<close> is \<open>String(i)\<close>).\<close>

definition index_of_key :: "string \<Rightarrow> nat \<Rightarrow> nat option" where
  "index_of_key c n = find (\<lambda>i. dec i = c) [0..<n]"

fun own_property :: "jsval \<Rightarrow> string \<Rightarrow> jsval option" where
  "own_property (JObj kvs) c = map_of kvs c"
| "own_property (JArr xs) c =
     (if c = ''length'' then Some (JNum (int (length xs)))
      else map_option (\<lambda>i. xs ! i) (index_of_key c (length xs)))"
| "own_property (JStr s) c =
     (if c = ''length'' then Some (JNum (int (length s)))
      else map_option (\<lambda>i. JStr [s ! i]) (index_of_key c (length s)))"
| "own_property v c = None"

text \<open>\<open>v[c]\<close> for a \<open>v\<close> that is neither \<open>null\<close> nor \<open>undefined\<close>: the own property, else the
  inherited one, else \<open>undefined\<close>.\<close>

definition member :: "inherited \<Rightarrow> jsval \<Rightarrow> string \<Rightarrow> jsval" where
  "member inh v c =
     (case own_property v c of
        Some x \<Rightarrow> x
      | None \<Rightarrow>
          (case kind_of v of
             None \<Rightarrow> JUndefined
           | Some k \<Rightarrow> (case inh k c of Some x \<Rightarrow> x | None \<Rightarrow> JUndefined)))"

fun is_nullish :: "jsval \<Rightarrow> bool" where
  "is_nullish JUndefined = True"
| "is_nullish JNull = True"
| "is_nullish v = False"

text \<open>\<open>v.c\<close>: a TypeError on \<open>null\<close> and \<open>undefined\<close> (the message is V8's).\<close>

definition getProp :: "inherited \<Rightarrow> jsval \<Rightarrow> string \<Rightarrow> exn + jsval" where
  "getProp inh v c =
     (if is_nullish v
      then Inl (Exn (Some (''Cannot read properties of ''
             @ (if v = JNull then ''null'' else ''undefined'')
             @ '' (reading '' @ [CHR 0x27] @ c @ [CHR 0x27] @ '')'')))
      else Inr (member inh v c))"

text \<open>\<open>v?.c\<close> and \<open>v?.[c]\<close>\<close>

definition optProp :: "inherited \<Rightarrow> jsval \<Rightarrow> string \<Rightarrow> jsval" where
  "optProp inh v c = (if is_nullish v then JUndefined else member inh v c)"

text \<open>\<open>v ?? d\<close>\<close>

definition nullish_or :: "jsval \<Rightarrow> jsval \<Rightarrow> jsval" where
  "nullish_or v d = (if is_nullish v then d else v)"

text \<open>\<open>String(n)\<close> of an integer.\<close>

definition show_int :: "int \<Rightarrow> string" where
  "show_int n = (if n < 0 then CHR ''-'' # dec (nat (- n)) else dec (nat n))"

text \<open>
  \<open>String(v)\<close>. An array prints its elements joined by commas, \<open>null\<close> and \<open>undefined\<close>
  elements as the empty string. A plain object prints \<open>[object Object]\<close> through the
  inherited \<open>toString\<close>; when it has an own property \<open>toString\<close> (data, so not callable),
  the conversion falls to \<open>valueOf\<close>, which yields no primitive, and throws a TypeError.
\<close>

fun toStr :: "jsval \<Rightarrow> exn + string"
  and joinStr :: "jsval list \<Rightarrow> exn + string" where
  "toStr JUndefined = Inr ''undefined''"
| "toStr JNull = Inr ''null''"
| "toStr (JBool b) = Inr (if b then ''true'' else ''false'')"
| "toStr (JNum n) = Inr (show_int n)"
| "toStr (JStr s) = Inr s"
| "toStr (JHost s) = Inr s"
| "toStr (JObj kvs) =
     (if ''toString'' \<in> set (map fst kvs)
      then Inl (Exn (Some ''Cannot convert object to primitive value''))
      else Inr ''[object Object]'')"
| "toStr (JArr xs) = joinStr xs"
| "joinStr [] = Inr []"
| "joinStr (x # xs) =
     (case (if is_nullish x then Inr [] else toStr x) of
        Inl e \<Rightarrow> Inl e
      | Inr s \<Rightarrow>
          (if xs = [] then Inr s
           else (case joinStr xs of Inl e \<Rightarrow> Inl e | Inr r \<Rightarrow> Inr (s @ '','' @ r))))"

text \<open>\<open>xs.map(f)\<close> for an \<open>f\<close> that may throw: the first exception ends the map.\<close>

fun map_exn :: "('a \<Rightarrow> exn + 'b) \<Rightarrow> 'a list \<Rightarrow> exn + 'b list" where
  "map_exn f [] = Inr []"
| "map_exn f (x # xs) =
     (case f x of
        Inl e \<Rightarrow> Inl e
      | Inr y \<Rightarrow> (case map_exn f xs of Inl e \<Rightarrow> Inl e | Inr ys \<Rightarrow> Inr (y # ys)))"

text \<open>
  \<open>out[c] = v\<close> on an object \<open>out\<close> that started as \<open>{}\<close>, for a string \<open>v\<close>: the key is
  updated in place or added at the end. The key \<open>__proto__\<close> is the inherited accessor,
  whose setter ignores a string, so the assignment adds nothing.
\<close>

definition obj_set :: "(string \<times> string) list \<Rightarrow> string \<Rightarrow> string \<Rightarrow> (string \<times> string) list" where
  "obj_set out c v = (if c = ''__proto__'' then out else AList.update c v out)"

text \<open>
  The inherited properties that every ECMAScript runtime provides through
  \<open>Object.prototype\<close>, as \<open>String\<close> prints them in Node. The further methods of
  \<open>Array.prototype\<close>, \<open>String.prototype\<close>, \<open>Number.prototype\<close> and \<open>Boolean.prototype\<close>
  vary with the version of the runtime and are not listed: \<open>es_inherited\<close> is exact on
  plain objects.
\<close>

definition native_function :: "string \<Rightarrow> jsval" where
  "native_function name = JHost (''function '' @ name @ ''() { [native code] }'')"

fun constructor_name :: "jskind \<Rightarrow> string" where
  "constructor_name KBoolean = ''Boolean''"
| "constructor_name KNumber = ''Number''"
| "constructor_name KString = ''String''"
| "constructor_name KArray = ''Array''"
| "constructor_name KObject = ''Object''"
| "constructor_name KHost = ''Function''"

fun prototype_text :: "jskind \<Rightarrow> string" where
  "prototype_text KBoolean = ''false''"
| "prototype_text KNumber = ''0''"
| "prototype_text KString = []"
| "prototype_text KArray = []"
| "prototype_text KObject = ''[object Object]''"
| "prototype_text KHost = ''function () { [native code] }''"

definition es_inherited :: inherited where
  "es_inherited k c =
     (if c = ''constructor'' then Some (native_function (constructor_name k))
      else if c = ''__proto__'' then Some (JHost (prototype_text k))
      else if c \<in> set [''toString'', ''toLocaleString'', ''valueOf'', ''hasOwnProperty'',
                        ''isPrototypeOf'', ''propertyIsEnumerable'', ''__defineGetter__'',
                        ''__defineSetter__'', ''__lookupGetter__'', ''__lookupSetter__'']
      then Some (native_function c)
      else None)"

section \<open>The extraction endpoint (ask.ts)\<close>

record table =
  tableName :: string
  columns :: "string list"
  rows :: "(string \<times> string) list list"

text \<open>\<^verbatim>\<open>const out = {}; for (const c of columns) out[c] = String(r?.[c] ?? ""); return out;\<close>\<close>

fun askRow :: "inherited \<Rightarrow> jsval \<Rightarrow> string list \<Rightarrow> (string \<times> string) list
    \<Rightarrow> exn + (string \<times> string) list" where
  "askRow inh r [] out = Inr out"
| "askRow inh r (c # cs) out =
     (case toStr (nullish_or (optProp inh r c) (JStr [])) of
        Inl e \<Rightarrow> Inl e
      | Inr s \<Rightarrow> askRow inh r cs (obj_set out c s))"

text \<open>
  \<^verbatim>\<open>
  (t: any) => {
    const columns = Array.isArray(t?.columns) ? t.columns.map(String) : [];
    const rows = Array.isArray(t?.rows) ? t.rows.map((r: any) => { ... }) : [];
    return { tableName: String(t?.tableName ?? "Unnamed Table"), columns, rows };
  }
  \<close>
\<close>

definition askTable :: "inherited \<Rightarrow> jsval \<Rightarrow> exn + table" where
  "askTable inh t =
     (case (case optProp inh t ''columns'' of JArr cs \<Rightarrow> map_exn toStr cs | _ \<Rightarrow> Inr []) of
        Inl e \<Rightarrow> Inl e
      | Inr cols \<Rightarrow>
          (case (case optProp inh t ''rows'' of
                   JArr rs \<Rightarrow> map_exn (\<lambda>r. askRow inh r cols []) rs
                 | _ \<Rightarrow> Inr []) of
             Inl e \<Rightarrow> Inl e
           | Inr rws \<Rightarrow>
               (case toStr (nullish_or (optProp inh t ''tableName'') (JStr ''Unnamed Table'')) of
                  Inl e \<Rightarrow> Inl e
                | Inr name \<Rightarrow> Inr \<lparr>tableName = name, columns = cols, rows = rws\<rparr>)))"

text \<open>
  \<^verbatim>\<open>
  (x: any, i: number) => ({
    order: typeof x?.order === "number" ? x.order : i + 1,
    content: String(x?.content ?? ""),
  })
  \<close>
\<close>

definition askDocumentEntry :: "inherited \<Rightarrow> nat \<times> jsval \<Rightarrow> exn + (int \<times> string)" where
  "askDocumentEntry inh ix =
     (case ix of (i, x) \<Rightarrow>
        (let order = (case optProp inh x ''order'' of JNum n \<Rightarrow> n | _ \<Rightarrow> int i + 1)
         in case toStr (nullish_or (optProp inh x ''content'') (JStr [])) of
              Inl e \<Rightarrow> Inl e
            | Inr s \<Rightarrow> Inr (order, s)))"

record ask_data =
  documentText :: "(int \<times> string) list"
  tables :: "table list"
  ids_found_in_multiple_tables :: "jsval list"
  ids_found_in_single_location :: "jsval list"
  sourceFileId :: string
  generatedAtISO :: string

text \<open>The code between the parse and the success response. \<open>parsed.documentText\<close> and
  \<open>parsed.tables\<close> are plain property reads; \<open>parsed?.idAnalysis?.\<dots>\<close> are optional ones.\<close>

definition askNormalize :: "inherited \<Rightarrow> jsval \<Rightarrow> string \<Rightarrow> string \<Rightarrow> exn + ask_data" where
  "askNormalize inh parsed fileId now =
     (case getProp inh parsed ''documentText'' of
        Inl e \<Rightarrow> Inl e
      | Inr dt \<Rightarrow>
     (case (case dt of
              JArr xs \<Rightarrow> map_exn (askDocumentEntry inh) (zip [0..<length xs] xs)
            | _ \<Rightarrow> Inr []) of
        Inl e \<Rightarrow> Inl e
      | Inr doc \<Rightarrow>
     (case getProp inh parsed ''tables'' of
        Inl e \<Rightarrow> Inl e
      | Inr tb \<Rightarrow>
     (case (case tb of JArr ts \<Rightarrow> map_exn (askTable inh) ts | _ \<Rightarrow> Inr []) of
        Inl e \<Rightarrow> Inl e
      | Inr tbls \<Rightarrow>
          Inr \<lparr>documentText = doc,
               tables = tbls,
               ids_found_in_multiple_tables =
                 (case optProp inh (optProp inh parsed ''idAnalysis'') ''ids_found_in_multiple_tables'' of
                    JArr ids \<Rightarrow> ids | _ \<Rightarrow> []),
               ids_found_in_single_location =
                 (case optProp inh (optProp inh parsed ''idAnalysis'') ''ids_found_in_single_location'' of
                    JArr ids \<Rightarrow> ids | _ \<Rightarrow> []),
               sourceFileId = fileId,
               generatedAtISO = now\<rparr>))))"

text \<open>The bodies of the route's responses: \<open>{ok: false, error, preview?}\<close> and
  \<open>{ok: true, fileId, data}\<close>.\<close>

datatype ask_body = AskFailure string "string option" | AskSuccess string ask_data

fun ask_ok :: "ask_body \<Rightarrow> bool" where
  "ask_ok (AskFailure err preview) = False"
| "ask_ok (AskSuccess fileId d) = True"

record ask_response =
  ask_status :: nat
  ask_body :: ask_body
  completion_requests :: nat

text \<open>
  The route \<open>GET /ask/:fileId\<close>. Its surroundings are parameters: \<open>create k\<close> is what request
  number \<open>k\<close> to \<open>openai.responses.create\<close> does (it throws, or returns a response whose
  \<open>output_text\<close> may be absent), \<open>parse\<close> is \<open>JSON.parse\<close> (\<open>None\<close> where it throws), \<open>now\<close> is
  \<open>new Date().toISOString()\<close>. \<open>completion_requests\<close> counts the requests made.
\<close>

definition askHandler :: "inherited \<Rightarrow> (string \<Rightarrow> jsval option) \<Rightarrow> (nat \<Rightarrow> exn + string option)
    \<Rightarrow> string \<Rightarrow> string \<Rightarrow> ask_response" where
  "askHandler inh parse create now fileId =
     (if take 5 fileId \<noteq> ''file-''
      then \<lparr>ask_status = 400,
            ask_body = AskFailure ''Invalid fileId. Expected a path param like /ask/file-...'' None,
            completion_requests = 0\<rparr>
      else
        (case create 0 of
           Inl e \<Rightarrow>
             \<lparr>ask_status = 500, ask_body = AskFailure (message_or e ''Ask failed'') None,
              completion_requests = 1\<rparr>
         | Inr output_text \<Rightarrow>
             (let rawText = (case output_text of None \<Rightarrow> [] | Some s \<Rightarrow> s)
              in case parse rawText of
                   None \<Rightarrow>
                     \<lparr>ask_status = 500,
                      ask_body = AskFailure ''Model did not return valid JSON.'' (Some (take 1200 rawText)),
                      completion_requests = 1\<rparr>
                 | Some parsed \<Rightarrow>
                     (case askNormalize inh parsed fileId now of
                        Inl e \<Rightarrow>
                          \<lparr>ask_status = 500, ask_body = AskFailure (message_or e ''Ask failed'') None,
                           completion_requests = 1\<rparr>
                      | Inr d \<Rightarrow>
                          \<lparr>ask_status = 200, ask_body = AskSuccess fileId d,
                           completion_requests = 1\<rparr>))))"

section \<open>The export endpoint (exportExcel.ts)\<close>

text \<open>
  \<^verbatim>\<open>
  function normalizeRows(columns: string[], rows: ExcelReadyRow[]) {
    return (rows || []).map((r) => {
      const out: Record<string, string> = {};
      for (const c of columns) {
        const v = (r as any)?.[c];
        out[c] = v === null || v === undefined ? "" : String(v);
      }
      return out;
    });
  }
  \<close>
\<close>

fun normalizeRow :: "inherited \<Rightarrow> jsval \<Rightarrow> string list \<Rightarrow> (string \<times> string) list
    \<Rightarrow> exn + (string \<times> string) list" where
  "normalizeRow inh r [] out = Inr out"
| "normalizeRow inh r (c # cs) out =
     (let v = optProp inh r c
      in case (if v = JNull \<or> v = JUndefined then Inr [] else toStr v) of
           Inl e \<Rightarrow> Inl e
         | Inr s \<Rightarrow> normalizeRow inh r cs (obj_set out c s))"

definition normalizeRows :: "inherited \<Rightarrow> string list \<Rightarrow> jsval list
    \<Rightarrow> exn + (string \<times> string) list list" where
  "normalizeRows inh cols rs = map_exn (\<lambda>r. normalizeRow inh r cols []) rs"

text \<open>\<open>Object.keys(v)\<close>: the own enumerable string keys.\<close>

fun object_keys :: "jsval \<Rightarrow> string list" where
  "object_keys (JObj kvs) = map fst kvs"
| "object_keys (JArr xs) = map dec [0..<length xs]"
| "object_keys (JStr s) = map dec [0..<length s]"
| "object_keys v = []"

text \<open>\<open>Array.from(new Set(xs))\<close>: the first occurrence of each element, in order.\<close>

fun dedupe :: "'a list \<Rightarrow> 'a list \<Rightarrow> 'a list" where
  "dedupe seen [] = seen"
| "dedupe seen (x # xs) = dedupe (if x \<in> set seen then seen else seen @ [x]) xs"

text \<open>
  A worksheet of the workbook: its name, the keys of its columns (the header row) and the
  rows added below the header. The widths and the styling of the cells are presentation
  and are not modelled.
\<close>

record worksheet =
  ws_name :: string
  ws_columns :: "string list"
  ws_rows :: "(string \<times> string) list list"

text \<open>
  \<open>wb.addWorksheet(sheetName)\<close> belongs to the exceljs library, not to this repository, and
  it throws when it refuses the name. It is a parameter \<open>add\<close> of the model: for the names
  of the worksheets that the workbook has and the name of the new one, \<open>add names name\<close> is
  \<open>None\<close> when the worksheet is added and the exception thrown otherwise.
\<close>

type_synonym add_worksheet = "string list \<Rightarrow> string \<Rightarrow> exn option"

text \<open>
  \<^verbatim>\<open>
  const tableName = typeof t?.tableName === "string" ? t.tableName : `Table ${idx + 1}`;
  const baseName = safeSheetName(tableName, `Table ${idx + 1}`);
  \<close>
\<close>

definition baseName :: "inherited \<Rightarrow> nat \<Rightarrow> jsval \<Rightarrow> string" where
  "baseName inh idx t =
     (let tblName = (case optProp inh t ''tableName'' of
                       JStr s \<Rightarrow> s
                     | _ \<Rightarrow> ''Table '' @ dec (idx + 1))
      in safeSheetName tblName (''Table '' @ dec (idx + 1)))"

text \<open>
  The body of \<open>tables.forEach((t, idx) => \<dots>)\<close> for table \<open>t\<close> at index \<open>idx\<close>: the
  worksheets of the workbook \<open>wb\<close> and the set \<open>used\<close> afterwards. The steps that can throw
  come in the order of the source: \<open>t.columns.map(String)\<close>, then
  \<open>wb.addWorksheet(sheetName)\<close>, then \<open>normalizeRows\<close>.
\<close>

definition exportTable :: "add_worksheet \<Rightarrow> inherited \<Rightarrow> nat \<Rightarrow> string list \<Rightarrow> worksheet list
    \<Rightarrow> jsval \<Rightarrow> exn + (worksheet list \<times> string list)" where
  "exportTable add inh idx used wb t =
     (let (sheetName, used') = uniqueSheetName (baseName inh idx t) used
      in case (case optProp inh t ''columns'' of JArr cs \<Rightarrow> map_exn toStr cs | _ \<Rightarrow> Inr []) of
           Inl e \<Rightarrow> Inl e
         | Inr cols \<Rightarrow>
             (let rs = (case optProp inh t ''rows'' of JArr xs \<Rightarrow> xs | _ \<Rightarrow> []);
                  finalColumns =
                    (if cols \<noteq> [] then cols
                     else dedupe [] (concat (map (\<lambda>r. object_keys (nullish_or r (JObj []))) rs)))
              in case add (map ws_name wb) sheetName of
                   Some e \<Rightarrow> Inl e
                 | None \<Rightarrow>
                     (if finalColumns = []
                      then Inr (wb @ [\<lparr>ws_name = sheetName, ws_columns = [''message''],
                                      ws_rows = [[(''message'', ''Table had no columns/rows.'')]]\<rparr>],
                                used')
                      else
                        (case normalizeRows inh finalColumns rs of
                           Inl e \<Rightarrow> Inl e
                         | Inr normalized \<Rightarrow>
                             Inr (wb @ [\<lparr>ws_name = sheetName, ws_columns = finalColumns,
                                         ws_rows = normalized\<rparr>], used')))))"

text \<open>The loop \<open>tables.forEach\<close>, from index \<open>idx\<close> on: the worksheets of the workbook at the
  end, in order.\<close>

fun exportTables :: "add_worksheet \<Rightarrow> inherited \<Rightarrow> nat \<Rightarrow> string list \<Rightarrow> worksheet list
    \<Rightarrow> jsval list \<Rightarrow> exn + worksheet list" where
  "exportTables add inh idx used wb [] = Inr wb"
| "exportTables add inh idx used wb (t # ts) =
     (case exportTable add inh idx used wb t of
        Inl e \<Rightarrow> Inl e
      | Inr (wb', used') \<Rightarrow> exportTables add inh (Suc idx) used' wb' ts)"

text \<open>The responses of \<open>POST /export/excel\<close>: a status with \<open>{ok: false, error}\<close>, or the
  workbook sent as \<open>extracted.xlsx\<close>.\<close>

datatype export_response = ExportFailure nat string | ExportFile "worksheet list"

definition exportHandler :: "add_worksheet \<Rightarrow> inherited \<Rightarrow> jsval \<Rightarrow> export_response" where
  "exportHandler add inh body =
     (let data = nullish_or (optProp inh body ''data'') body;
          tbls = (case optProp inh data ''tables'' of JArr ts \<Rightarrow> ts | _ \<Rightarrow> [])
      in if tbls = []
         then ExportFailure 400
                ''No tables found. Expected JSON with data.tables[] (paste the full /ask response or the inner data object).''
         else
           (case exportTables add inh 0 [] [] tbls of
              Inl e \<Rightarrow> ExportFailure 500 (message_or e ''Excel export failed'')
            | Inr sheets \<Rightarrow> ExportFile sheets))"

text \<open>\<open>s.toLowerCase()\<close>, on the code units below 256.\<close>

definition to_lower :: "char \<Rightarrow> char" where
  "to_lower c =
     (let n = (of_char c :: nat)
      in if (65 \<le> n \<and> n \<le> 90) \<or> (192 \<le> n \<and> n \<le> 222 \<and> n \<noteq> 215) then char_of (n + 32) else c)"

text \<open>
  The check that exceljs (version 4) makes of the name of a new worksheet, in its order: the
  name is not empty, is not \<open>History\<close>, has none of the disallowed characters,
  neither starts nor ends with an apostrophe, and differs from the names of the worksheets
  of the workbook when letter case is ignored. A name of more than 31 characters would be
  cut first; \<open>uniqueSheetName\<close> yields none for a workbook of fewer than \<open>2^32\<close> sheets.
\<close>

definition exceljs_addWorksheet :: add_worksheet where
  "exceljs_addWorksheet names name =
     (if name = [] then Some (Exn (Some (''The name can'' @ [CHR 0x27] @ ''t be empty.'')))
      else if name = ''History''
      then Some (Exn (Some (''The name '' @ [CHR 0x22] @ ''History'' @ [CHR 0x22]
                   @ '' is protected. Please use a different name.'')))
      else if list_ex forbidden name
      then Some (Exn (Some (''Worksheet name '' @ name
                   @ '' cannot include any of the following characters: * ? : '' @ [CHR 0x5C] @ '' / [ ]'')))
      else if hd name = CHR 0x27 \<or> last name = CHR 0x27
      then Some (Exn (Some (''The first or last character of worksheet name cannot be a single quotation mark: ''
                   @ name)))
      else if map to_lower name \<in> set (map (map to_lower) names)
      then Some (Exn (Some (''Worksheet name already exists: '' @ name)))
      else None)"

section \<open>Polling (upload.ts, vectorStore.ts)\<close>

text \<open>
  What a run of a polling loop has done so far: the reading of \<open>Date.now()\<close>, the number of
  status fetches and the number of calls of \<open>sleep\<close>.
\<close>

record world =
  clock :: int
  fetches :: nat
  sleeps :: nat

text \<open>
  How time passes: fetch number \<open>k\<close> takes \<open>fetch_ms k\<close> milliseconds, and call number \<open>k\<close> of
  \<open>sleep(ms)\<close> takes \<open>ms + oversleep k\<close> milliseconds (a timer fires no earlier than asked).
\<close>

record timing =
  fetch_ms :: "nat \<Rightarrow> nat"
  oversleep :: "nat \<Rightarrow> nat"

definition after_fetch :: "timing \<Rightarrow> world \<Rightarrow> world" where
  "after_fetch tm w = w\<lparr>clock := clock w + int (fetch_ms tm (fetches w)), fetches := Suc (fetches w)\<rparr>"

definition after_sleep :: "timing \<Rightarrow> int \<Rightarrow> world \<Rightarrow> world" where
  "after_sleep tm ms w = w\<lparr>clock := clock w + ms + int (oversleep tm (sleeps w)), sleeps := Suc (sleeps w)\<rparr>"

subsection \<open>waitForVectorStoreReady\<close>

record vector_store =
  vs_status :: string
  vs_detail :: string

definition timeout_message :: "string \<Rightarrow> string \<Rightarrow> string" where
  "timeout_message vectorStoreId status =
     ''Timed out waiting for vector store '' @ vectorStoreId @ '' to be ready (last status: '' @ status @ '')''"

text \<open>
  \<^verbatim>\<open>
  while (true) {
    const vs = await openai.vectorStores.retrieve(vectorStoreId);
    if (vs.status === "completed") return vs;
    if (Date.now() - start > timeoutMs) {
      throw new Error(`Timed out waiting for vector store ${vectorStoreId} to be ready (last status: ${vs.status})`);
    }
    await sleep(1500);
  }
  \<close>
  \<open>retrieve k\<close> is what fetch number \<open>k\<close> does: it throws or returns the vector store. The
  result is \<open>None\<close> when the loop never ends.
\<close>

partial_function (option) waitLoop :: "(nat \<Rightarrow> exn + vector_store) \<Rightarrow> timing \<Rightarrow> string \<Rightarrow> int
    \<Rightarrow> int \<Rightarrow> world \<Rightarrow> ((exn + vector_store) \<times> world) option" where
  "waitLoop retrieve tm vectorStoreId timeoutMs start w =
     (case retrieve (fetches w) of
        Inl e \<Rightarrow> Some (Inl e, after_fetch tm w)
      | Inr vs \<Rightarrow>
          (if vs_status vs = ''completed'' then Some (Inr vs, after_fetch tm w)
           else if clock (after_fetch tm w) - start > timeoutMs
           then Some (Inl (Exn (Some (timeout_message vectorStoreId (vs_status vs)))), after_fetch tm w)
           else waitLoop retrieve tm vectorStoreId timeoutMs start
                  (after_sleep tm 1500 (after_fetch tm w))))"

declare waitLoop.simps [code]

text \<open>\<^verbatim>\<open>export async function waitForVectorStoreReady(vectorStoreId: string, timeoutMs = 120_000) {
  const start = Date.now(); ... }\<close>\<close>

definition waitForVectorStoreReady :: "(nat \<Rightarrow> exn + vector_store) \<Rightarrow> timing \<Rightarrow> string
    \<Rightarrow> int option \<Rightarrow> world \<Rightarrow> ((exn + vector_store) \<times> world) option" where
  "waitForVectorStoreReady retrieve tm vectorStoreId timeoutMs w =
     waitLoop retrieve tm vectorStoreId (case timeoutMs of None \<Rightarrow> 120000 | Some t \<Rightarrow> t) (clock w) w"

subsection \<open>The upload route\<close>

text \<open>The batch that \<open>retrieveBatch\<close> returns, and an entry of \<open>filesInStore.data\<close>.\<close>

record batch =
  batch_status :: string
  batch_detail :: string

record store_file =
  sf_id :: string
  sf_status :: string
  sf_last_error :: "string option"

text \<open>
  The remote service, as the route sees it: what each call does (it throws, or returns the
  value named). \<open>fileBatches_retrieve k\<close> is fetch number \<open>k\<close> of the batch.
\<close>

record remote =
  toFile :: "exn option"
  files_create :: "exn + string"
  vectorStores_create :: "exn + string"
  fileBatches_create :: "exn + string"
  fileBatches_retrieve :: "nat \<Rightarrow> exn + batch"
  files_list :: "exn + store_file list"

text \<open>
  \<^verbatim>\<open>
  function assertString(name: string, value: unknown): string {
    if (typeof value !== "string" || !value.trim()) {
      throw new Error(`${name} missing/invalid: ${String(value)}`);
    }
    return value;
  }
  \<close>
  The identifiers of the SDK are strings.
\<close>

definition assertString :: "string \<Rightarrow> string \<Rightarrow> exn + string" where
  "assertString name v =
     (if trim v = [] then Inl (Exn (Some (name @ '' missing/invalid: '' @ v))) else Inr v)"

text \<open>Steps 1 to 4 of the route: the file identifier, the vector store identifier and the
  batch identifier.\<close>

definition uploadCreate :: "remote \<Rightarrow> exn + (string \<times> string \<times> string)" where
  "uploadCreate rm =
     (case toFile rm of
        Some e \<Rightarrow> Inl e
      | None \<Rightarrow>
     (case files_create rm of
        Inl e \<Rightarrow> Inl e
      | Inr uploadedId \<Rightarrow>
     (case assertString ''uploadedFile.id'' uploadedId of
        Inl e \<Rightarrow> Inl e
      | Inr fileId \<Rightarrow>
     (case vectorStores_create rm of
        Inl e \<Rightarrow> Inl e
      | Inr storeId \<Rightarrow>
     (case assertString ''vectorStore.id'' storeId of
        Inl e \<Rightarrow> Inl e
      | Inr vectorStoreId \<Rightarrow>
     (case fileBatches_create rm of
        Inl e \<Rightarrow> Inl e
      | Inr createdId \<Rightarrow>
     (case assertString ''batch.id'' createdId of
        Inl e \<Rightarrow> Inl e
      | Inr batchId \<Rightarrow> Inr (fileId, vectorStoreId, batchId))))))))"

text \<open>
  Step 5:
  \<^verbatim>\<open>
  while (true) {
    const b = await retrieveBatch(batchId, vectorStoreId);
    if (b.status === "completed") break;
    if (b.status === "failed") { return res.status(500).json({ ... batchStatus: b }); }
    await sleep(1500);
  }
  \<close>
  The result is \<open>None\<close> when the loop never ends.
\<close>

datatype poll_outcome = PollCompleted | PollFailed batch | PollThrew exn

partial_function (option) pollBatch :: "(nat \<Rightarrow> exn + batch) \<Rightarrow> timing \<Rightarrow> world
    \<Rightarrow> (poll_outcome \<times> world) option" where
  "pollBatch retrieve tm w =
     (case retrieve (fetches w) of
        Inl e \<Rightarrow> Some (PollThrew e, after_fetch tm w)
      | Inr b \<Rightarrow>
          (if batch_status b = ''completed'' then Some (PollCompleted, after_fetch tm w)
           else if batch_status b = ''failed'' then Some (PollFailed b, after_fetch tm w)
           else pollBatch retrieve tm (after_sleep tm 1500 (after_fetch tm w))))"

declare pollBatch.simps [code]

text \<open>The bodies of the route's responses.\<close>

datatype upload_body =
    UploadError string
  | BatchFailed string string string batch
  | FileNotFound string string string "(string \<times> string) list"
  | IndexingFailed string string string "string \<times> string \<times> string option"
  | Uploaded string string string "(string \<times> string) list"

fun upload_ok :: "upload_body \<Rightarrow> bool" where
  "upload_ok (Uploaded fileId vectorStoreId batchId indexedFiles) = True"
| "upload_ok b = False"

fun upload_error :: "upload_body \<Rightarrow> string option" where
  "upload_error (UploadError msg) = Some msg"
| "upload_error (BatchFailed fileId vectorStoreId batchId b) =
     Some ''File batch failed during vector store processing''"
| "upload_error (FileNotFound fileId vectorStoreId batchId files) =
     Some ''File not found in vector store after batch completed''"
| "upload_error (IndexingFailed fileId vectorStoreId batchId f) =
     Some ''Vector store indexing failed for this file''"
| "upload_error (Uploaded fileId vectorStoreId batchId indexedFiles) = None"

record upload_response =
  up_status :: nat
  up_body :: upload_body

text \<open>The \<open>catch\<close> of the route.\<close>

definition uploadCaught :: "exn \<Rightarrow> upload_response" where
  "uploadCaught e = \<lparr>up_status = 500, up_body = UploadError (message_or e ''Upload failed'')\<rparr>"

text \<open>Step 6, after the loop has seen \<open>completed\<close>: the entry of the file in the vector
  store.\<close>

definition uploadCheck :: "remote \<Rightarrow> string \<Rightarrow> string \<Rightarrow> string \<Rightarrow> upload_response" where
  "uploadCheck rm fileId vectorStoreId batchId =
     (case files_list rm of
        Inl e \<Rightarrow> uploadCaught e
      | Inr filesInStore \<Rightarrow>
          (case find (\<lambda>x. sf_id x = fileId) filesInStore of
             None \<Rightarrow>
               \<lparr>up_status = 500,
                up_body = FileNotFound fileId vectorStoreId batchId
                            (map (\<lambda>x. (sf_id x, sf_status x)) filesInStore)\<rparr>
           | Some entry \<Rightarrow>
               (if sf_status entry = ''failed''
                then \<lparr>up_status = 500,
                      up_body = IndexingFailed fileId vectorStoreId batchId
                                  (sf_id entry, sf_status entry, sf_last_error entry)\<rparr>
                else \<lparr>up_status = 200,
                      up_body = Uploaded fileId vectorStoreId batchId
                                  (map (\<lambda>x. (sf_id x, sf_status x)) filesInStore)\<rparr>)))"

text \<open>
  The route \<open>POST /upload\<close>: \<open>has_file\<close> tells whether \<open>req.file\<close> is there (its name and type
  are only forwarded to the remote service). The result is the response and what the
  polling did, or \<open>None\<close> when the route never responds.
\<close>

definition uploadHandler :: "bool \<Rightarrow> remote \<Rightarrow> timing \<Rightarrow> world \<Rightarrow> (upload_response \<times> world) option" where
  "uploadHandler has_file rm tm w =
     (if \<not> has_file
      then Some (\<lparr>up_status = 400,
                  up_body = UploadError (''No file uploaded (field name must be '' @ [CHR 0x27] @ ''file''
                              @ [CHR 0x27] @ '').'')\<rparr>, w)
      else
        (case uploadCreate rm of
           Inl e \<Rightarrow> Some (uploadCaught e, w)
         | Inr (fileId, vectorStoreId, batchId) \<Rightarrow>
             (case pollBatch (fileBatches_retrieve rm) tm w of
                None \<Rightarrow> None
              | Some (PollThrew e, w') \<Rightarrow> Some (uploadCaught e, w')
              | Some (PollFailed b, w') \<Rightarrow>
                  Some (\<lparr>up_status = 500, up_body = BatchFailed fileId vectorStoreId batchId b\<rparr>, w')
              | Some (PollCompleted, w') \<Rightarrow>
                  Some (uploadCheck rm fileId vectorStoreId batchId, w'))))"

section \<open>Properties of the extraction endpoint\<close>

text \<open>
  C9. When the text that the model returned is not valid JSON (\<open>JSON.parse\<close> throws), the
  route answers with status 500 and the body \<open>{ok: false, error: "Model did not return valid
  JSON.", preview}\<close>, where \<open>preview\<close> is the first 1200 characters of the raw text. It has
  made one request to the completion service, and no other: nothing is repaired or retried.
\<close>

theorem ask_invalid_json_terminal:
  assumes "take 5 fileId = ''file-''"
    and "create 0 = Inr output_text"
    and "rawText = (case output_text of None \<Rightarrow> [] | Some s \<Rightarrow> s)"
    and "parse rawText = None"
  shows "askHandler inh parse create now fileId =
           \<lparr>ask_status = 500,
            ask_body = AskFailure ''Model did not return valid JSON.'' (Some (take 1200 rawText)),
            completion_requests = 1\<rparr>
         \<and> \<not> ask_ok (ask_body (askHandler inh parse create now fileId))
         \<and> length (take 1200 rawText) \<le> 1200"
  using assms by (simp add: askHandler_def)

theorem ask_invalid_json_terminal_witness:
  "take 5 ''file-abc'' = ''file-''
   \<and> askHandler es_inherited (\<lambda>s. None) (\<lambda>k. Inr (Some ''Sorry, I cannot read this PDF.'')) ''2026-01-01T00:00:00.000Z'' ''file-abc'' =
       \<lparr>ask_status = 500,
        ask_body = AskFailure ''Model did not return valid JSON.'' (Some ''Sorry, I cannot read this PDF.''),
        completion_requests = 1\<rparr>"
  using ask_invalid_json_terminal [of "''file-abc''" "\<lambda>k. Inr (Some ''Sorry, I cannot read this PDF.'')"
      "Some ''Sorry, I cannot read this PDF.''" "''Sorry, I cannot read this PDF.''" "\<lambda>s. None"
      es_inherited "''2026-01-01T00:00:00.000Z''"]
  by simp




text \<open>
  C10. The model output \<open>null\<close> is valid JSON, and the route does not answer it with
  success: \<open>parsed.documentText\<close> is a plain property read of \<open>null\<close>, the TypeError reaches
  the outer \<open>catch\<close>, and the response is status 500 with \<open>ok: false\<close>.
\<close>

theorem ask_null_json_fails:
  assumes "take 5 fileId = ''file-''"
    and "create 0 = Inr output_text"
    and "parse (case output_text of None \<Rightarrow> [] | Some s \<Rightarrow> s) = Some JNull"
  shows "askHandler inh parse create now fileId =
           \<lparr>ask_status = 500,
            ask_body = AskFailure (''Cannot read properties of null (reading '' @ [CHR 0x27]
                         @ ''documentText'' @ [CHR 0x27] @ '')'') None,
            completion_requests = 1\<rparr>"
  using assms by (simp add: askHandler_def askNormalize_def getProp_def)

theorem ask_null_json_fails_witness:
  "take 5 ''file-abc'' = ''file-''
   \<and> ask_status (askHandler es_inherited (\<lambda>s. if s = ''null'' then Some JNull else None)
         (\<lambda>k. Inr (Some ''null'')) ''2026-01-01T00:00:00.000Z'' ''file-abc'') = 500
   \<and> \<not> ask_ok (ask_body (askHandler es_inherited (\<lambda>s. if s = ''null'' then Some JNull else None)
         (\<lambda>k. Inr (Some ''null'')) ''2026-01-01T00:00:00.000Z'' ''file-abc''))"
  using ask_null_json_fails [of "''file-abc''" "\<lambda>k. Inr (Some ''null'')" "Some ''null''"
      "\<lambda>s. if s = ''null'' then Some JNull else None" es_inherited "''2026-01-01T00:00:00.000Z''"]
  by simp

section \<open>Properties of the export endpoint\<close>

subsection \<open>Sheet names\<close>






lemma blank_not_forbidden [simp]: "\<not> forbidden CHR '' ''"
  by (simp add: forbidden_def)
















lemma set_trim_subset: "set (trim s) \<subseteq> set s"
proof
  fix x assume "x \<in> set (trim s)"
  then have "x \<in> set (dropWhile is_space (rev (dropWhile is_space s)))" by (simp add: trim_def)
  then have "x \<in> set (rev (dropWhile is_space s))" by (rule set_dropWhileD)
  then have "x \<in> set (dropWhile is_space s)" by simp
  then show "x \<in> set s" by (rule set_dropWhileD)
qed

lemma length_dec_le: "0 < k \<Longrightarrow> n < 10 ^ k \<Longrightarrow> length (dec n) \<le> k"
proof (induction n arbitrary: k rule: dec.induct)
  case (1 n)
  show ?case
  proof (cases "n < 10")
    case True
    then have "dec n = [digit_char n]" by (subst dec.simps) simp
    with "1.prems" show ?thesis by simp
  next
    case False
    then have d: "dec n = dec (n div 10) @ [digit_char (n mod 10)]" by (subst dec.simps) simp
    from False "1.prems" have k: "1 < k" by (cases "k = 1") auto
    then obtain k' where k': "k = Suc k'" "0 < k'" by (cases k) auto
    with "1.prems" have "n div 10 < 10 ^ k'" by (simp add: less_mult_imp_div_less mult.commute)
    from "1.IH"[OF False k'(2) this] d k' show ?thesis by simp
  qed
qed




lemma exportTable_name:
  assumes "exportTable add inh idx used wb t = Inr (wb', used')"
  shows "\<exists>ws. wb' = wb @ [ws]
           \<and> ws_name ws = uniqueLoop (baseName inh idx t) used (baseName inh idx t) 2
           \<and> used' = used @ [ws_name ws]
           \<and> add (map ws_name wb) (ws_name ws) = None"
  using assms
  by (auto simp: exportTable_def uniqueSheetName_def Let_def split: sum.splits if_splits option.splits)


lemma forbidden_code: "forbidden c \<Longrightarrow> (of_char c :: nat) \<in> {58, 92, 47, 63, 42, 91, 93}"
  by (auto simp: forbidden_def)

lemma digit_not_forbidden: "d < 10 \<Longrightarrow> \<not> forbidden (digit_char d)"
proof
  assume d: "d < 10" and "forbidden (digit_char d)"
  then have "(of_char (digit_char d) :: nat) \<in> {58, 92, 47, 63, 42, 91, 93}"
    by (intro forbidden_code)
  with d show False by (simp add: digit_char_def)
qed

lemma dec_not_forbidden: "c \<in> set (dec n) \<Longrightarrow> \<not> forbidden c"
proof (induction n rule: dec.induct)
  case (1 n)
  show ?case
  proof (cases "n < 10")
    case True
    with "1.prems" show ?thesis by (subst (asm) dec.simps) (simp add: digit_not_forbidden)
  next
    case False
    then have "dec n = dec (n div 10) @ [digit_char (n mod 10)]" by (subst dec.simps) simp
    with "1.prems" "1.IH"[OF False] show ?thesis by (auto simp: digit_not_forbidden)
  qed
qed

lemma set_collapse_spaces: "set (collapse_spaces s) \<subseteq> insert CHR '' '' (set s)"
proof (induction s rule: collapse_spaces.induct)
  case 1
  then show ?case by simp
next
  case (2 c cs)
  show ?case
  proof (cases "is_space c")
    case True
    with 2 have "set (collapse_spaces (dropWhile is_space cs)) \<subseteq> insert CHR '' '' (set (dropWhile is_space cs))"
      by simp
    moreover have "set (dropWhile is_space cs) \<subseteq> set cs" by (auto dest: set_dropWhileD)
    ultimately show ?thesis using True by auto
  next
    case False
    with 2 show ?thesis by auto
  qed
qed

lemma fallback_not_forbidden: "c \<in> set (''Table '' @ dec n) \<Longrightarrow> \<not> forbidden c"
  by (auto simp: forbidden_def dest: dec_not_forbidden)

lemma safeSheetName_not_forbidden:
  assumes "\<forall>c\<in>set fallback. \<not> forbidden c" and "c \<in> set (safeSheetName name fallback)"
  shows "\<not> forbidden c"
proof -
  let ?raw = "replace_forbidden (if name = [] then fallback else name)"
  let ?cleaned = "slice0 (trim (collapse_spaces ?raw)) 31"
  have raw: "\<forall>x\<in>set ?raw. \<not> forbidden x" by (auto simp: replace_forbidden_def)
  have "set ?cleaned \<subseteq> set (trim (collapse_spaces ?raw))"
    by (auto simp: slice0_def dest: in_set_takeD)
  also have "\<dots> \<subseteq> set (collapse_spaces ?raw)" by (rule set_trim_subset)
  also have "\<dots> \<subseteq> insert CHR '' '' (set ?raw)" by (rule set_collapse_spaces)
  finally have "\<forall>x\<in>set ?cleaned. \<not> forbidden x" using raw by auto
  with assms show ?thesis by (auto simp: safeSheetName_def Let_def split: if_splits)
qed

lemma length_safeSheetName: "length fallback \<le> 31 \<Longrightarrow> length (safeSheetName name fallback) \<le> 31"
  by (auto simp: safeSheetName_def Let_def slice0_def)


lemma baseName_props:
  assumes "idx < 2 ^ 32"
  shows "length (baseName inh idx t) \<le> 31 \<and> (\<forall>c\<in>set (baseName inh idx t). \<not> forbidden c)"
proof -
  have "idx + 1 < 10 ^ 10" using assms by simp
  then have "length (dec (idx + 1)) \<le> 10" by (intro length_dec_le) auto
  then have len: "length (''Table '' @ dec (idx + 1)) \<le> 31" by simp
  have nf: "\<forall>c\<in>set (''Table '' @ dec (idx + 1)). \<not> forbidden c"
    using fallback_not_forbidden by blast
  show ?thesis
    unfolding baseName_def Let_def
    using length_safeSheetName[OF len] safeSheetName_not_forbidden[OF nf] by blast
qed






















text \<open>
  The names are compared as they are written. exceljs compares them without regard to
  letter case, so it refuses the second of the tables \<open>bom\<close> and \<open>BOM\<close>, and the route
  answers with status 500.
\<close>

lemma export_case_collision:
  "exportHandler exceljs_addWorksheet es_inherited
     (JObj [(''tables'', JArr [JObj [(''tableName'', JStr ''bom'')], JObj [(''tableName'', JStr ''BOM'')]])])
   = ExportFailure 500 ''Worksheet name already exists: BOM''"
  by code_simp

subsection \<open>The placeholder sheet\<close>

lemma exportTables_steps:
  assumes "exportTables add inh idx used wb ts = Inr sheets"
  shows "\<exists>new. sheets = wb @ new \<and> length new = length ts \<and>
         (\<forall>k<length ts. \<exists>used'.
            exportTable add inh (idx + k) (used @ map ws_name (take k new)) (wb @ take k new) (ts ! k)
              = Inr (wb @ take (Suc k) new, used'))"
  using assms
proof (induction ts arbitrary: idx used wb)
  case Nil
  then show ?case by simp
next
  case (Cons t ts)
  from Cons.prems obtain wb' used' where
    s: "exportTable add inh idx used wb t = Inr (wb', used')"
       "exportTables add inh (Suc idx) used' wb' ts = Inr sheets"
    by (auto split: sum.splits)
  from exportTable_name[OF s(1)] obtain ws where ws: "wb' = wb @ [ws]"
    "used' = used @ [ws_name ws]" by blast
  from Cons.IH[OF s(2)] obtain new where new: "sheets = wb' @ new" "length new = length ts"
    "\<And>k. k < length ts \<Longrightarrow> \<exists>u.
        exportTable add inh (Suc idx + k) (used' @ map ws_name (take k new)) (wb' @ take k new) (ts ! k)
          = Inr (wb' @ take (Suc k) new, u)" by blast
  have "\<exists>u. exportTable add inh (idx + k) (used @ map ws_name (take k (ws # new)))
               (wb @ take k (ws # new)) ((t # ts) ! k)
          = Inr (wb @ take (Suc k) (ws # new), u)" if k: "k < length (t # ts)" for k
  proof (cases k)
    case 0
    with s(1) ws(1) show ?thesis by simp
  next
    case (Suc k')
    with k have "k' < length ts" by simp
    from new(3)[OF this] Suc ws show ?thesis by simp
  qed
  with ws(1) new(1,2) show ?case by (intro exI[of _ "ws # new"]) simp
qed

text \<open>
  C8. Not every table with no declared columns and no rows gets a sheet. For such a table
  named \<open>History\<close>, \<open>wb.addWorksheet\<close> throws before the placeholder is written, and the
  route answers with status 500 instead of a workbook. \<open>safeSheetName\<close> and
  \<open>uniqueSheetName\<close> see to the length, the disallowed characters and the repeated names,
  and miss the names that the workbook refuses for another reason.
\<close>

theorem export_empty_table_refused:
  "exportHandler exceljs_addWorksheet es_inherited
     (JObj [(''tables'', JArr [JObj [(''tableName'', JStr ''History''), (''columns'', JArr []),
                                     (''rows'', JArr [])]])])
   = ExportFailure 500 (''The name '' @ [CHR 0x22] @ ''History'' @ [CHR 0x22]
                          @ '' is protected. Please use a different name.'')"
  by code_simp

text \<open>
  What does hold of the placeholder: for a table with no declared columns and no rows (each
  absent, not an array, or an empty array) whose worksheet the workbook accepts, the step
  of the loop does not throw and adds a sheet with the single column \<open>message\<close> and exactly
  one row, the informational one. In every export that is answered with a workbook, the
  sheet at the position of such a table is that placeholder.
\<close>

theorem export_empty_table_placeholder:
  assumes cols: "(case optProp inh t ''columns'' of JArr cs \<Rightarrow> cs | _ \<Rightarrow> []) = []"
    and rws: "(case optProp inh t ''rows'' of JArr rs \<Rightarrow> rs | _ \<Rightarrow> []) = []"
  shows "(add (map ws_name wb) (fst (uniqueSheetName (baseName inh idx t) used)) = None
          \<longrightarrow> exportTable add inh idx used wb t =
                Inr (wb @ [\<lparr>ws_name = fst (uniqueSheetName (baseName inh idx t) used),
                              ws_columns = [''message''],
                              ws_rows = [[(''message'', ''Table had no columns/rows.'')]]\<rparr>],
                     snd (uniqueSheetName (baseName inh idx t) used)))
     \<and> (\<forall>body tbls sheets k.
           optProp inh (nullish_or (optProp inh body ''data'') body) ''tables'' = JArr tbls
           \<and> k < length tbls \<and> tbls ! k = t \<and> exportHandler add inh body = ExportFile sheets
           \<longrightarrow> k < length sheets
               \<and> ws_columns (sheets ! k) = [''message'']
               \<and> ws_rows (sheets ! k) = [[(''message'', ''Table had no columns/rows.'')]])"
proof -
  have c: "(case optProp inh t ''columns'' of JArr cs \<Rightarrow> map_exn toStr cs | _ \<Rightarrow> Inr []) = Inr []"
    using cols by (auto split: jsval.splits)
  have step: "exportTable add inh i u w t =
      (case add (map ws_name w) (fst (uniqueSheetName (baseName inh i t) u)) of
         Some e \<Rightarrow> Inl e
       | None \<Rightarrow>
           Inr (w @ [\<lparr>ws_name = fst (uniqueSheetName (baseName inh i t) u),
                       ws_columns = [''message''],
                       ws_rows = [[(''message'', ''Table had no columns/rows.'')]]\<rparr>],
                snd (uniqueSheetName (baseName inh i t) u)))" for i u w
    using rws by (simp add: exportTable_def c Let_def split: prod.splits option.splits)
  have "k < length sheets
               \<and> ws_columns (sheets ! k) = [''message'']
               \<and> ws_rows (sheets ! k) = [[(''message'', ''Table had no columns/rows.'')]]"
    if tb: "optProp inh (nullish_or (optProp inh body ''data'') body) ''tables'' = JArr tbls"
      and k: "k < length tbls" and t: "tbls ! k = t" and ok: "exportHandler add inh body = ExportFile sheets"
    for body tbls sheets k
  proof -
    from tb ok have run: "exportTables add inh 0 [] [] tbls = Inr sheets"
      by (auto simp: exportHandler_def Let_def split: if_splits sum.splits)
    from exportTables_steps[OF run] k t obtain u where l: "length sheets = length tbls"
      and st: "exportTable add inh k (map ws_name (take k sheets)) (take k sheets) t
                 = Inr (take (Suc k) sheets, u)" by auto
    from st step[of k "map ws_name (take k sheets)" "take k sheets"]
    have "take (Suc k) sheets = take k sheets @ [\<lparr>ws_name = fst (uniqueSheetName (baseName inh k t) (map ws_name (take k sheets))),
                       ws_columns = [''message''],
                       ws_rows = [[(''message'', ''Table had no columns/rows.'')]]\<rparr>]"
      by (auto split: option.splits)
    moreover have "take (Suc k) sheets = take k sheets @ [sheets ! k]"
      using k l by (simp add: take_Suc_conv_app_nth)
    ultimately have "sheets ! k = \<lparr>ws_name = fst (uniqueSheetName (baseName inh k t) (map ws_name (take k sheets))),
                       ws_columns = [''message''],
                       ws_rows = [[(''message'', ''Table had no columns/rows.'')]]\<rparr>" by simp
    with k l show ?thesis by simp
  qed
  moreover have "add (map ws_name wb) (fst (uniqueSheetName (baseName inh idx t) used)) = None
          \<longrightarrow> exportTable add inh idx used wb t =
                Inr (wb @ [\<lparr>ws_name = fst (uniqueSheetName (baseName inh idx t) used),
                              ws_columns = [''message''],
                              ws_rows = [[(''message'', ''Table had no columns/rows.'')]]\<rparr>],
                     snd (uniqueSheetName (baseName inh idx t) used))"
    using step[of idx used wb] by simp
  ultimately show ?thesis by blast
qed

theorem export_empty_table_placeholder_witness:
  "(case optProp es_inherited (JObj [(''tableName'', JStr ''BOM''), (''columns'', JArr []), (''rows'', JArr [])]) ''columns'' of JArr cs \<Rightarrow> cs | _ \<Rightarrow> []) = []
   \<and> (case optProp es_inherited (JObj [(''tableName'', JStr ''BOM''), (''columns'', JArr []), (''rows'', JArr [])]) ''rows'' of JArr rs \<Rightarrow> rs | _ \<Rightarrow> []) = []
   \<and> exceljs_addWorksheet (map ws_name []) ''BOM'' = None
   \<and> exportTable exceljs_addWorksheet es_inherited 0 [] []
        (JObj [(''tableName'', JStr ''BOM''), (''columns'', JArr []), (''rows'', JArr [])])
      = Inr ([\<lparr>ws_name = ''BOM'', ws_columns = [''message''],
                ws_rows = [[(''message'', ''Table had no columns/rows.'')]]\<rparr>], [''BOM''])
   \<and> exportHandler exceljs_addWorksheet es_inherited
        (JObj [(''tables'', JArr [JObj [(''tableName'', JStr ''BOM''), (''columns'', JArr []), (''rows'', JArr [])]])])
      = ExportFile [\<lparr>ws_name = ''BOM'', ws_columns = [''message''],
                     ws_rows = [[(''message'', ''Table had no columns/rows.'')]]\<rparr>]"
proof -
  let ?t = "JObj [(''tableName'', JStr ''BOM''), (''columns'', JArr []), (''rows'', JArr [])]"
  have a: "(case optProp es_inherited ?t ''columns'' of JArr cs \<Rightarrow> cs | _ \<Rightarrow> []) = []"
    by (simp add: optProp_def member_def)
  have b: "(case optProp es_inherited ?t ''rows'' of JArr rs \<Rightarrow> rs | _ \<Rightarrow> []) = []"
    by (simp add: optProp_def member_def)
  have n: "uniqueSheetName (baseName es_inherited 0 ?t) [] = (''BOM'', [''BOM''])" by code_simp
  have acc: "exceljs_addWorksheet (map ws_name []) ''BOM'' = None" by code_simp
  have h: "exportHandler exceljs_addWorksheet es_inherited (JObj [(''tables'', JArr [?t])])
      = ExportFile [\<lparr>ws_name = ''BOM'', ws_columns = [''message''],
                     ws_rows = [[(''message'', ''Table had no columns/rows.'')]]\<rparr>]" by code_simp
  from export_empty_table_placeholder [OF a b, of exceljs_addWorksheet "[]" 0 "[]"] n acc
  have "exportTable exceljs_addWorksheet es_inherited 0 [] [] ?t
      = Inr ([\<lparr>ws_name = ''BOM'', ws_columns = [''message''],
               ws_rows = [[(''message'', ''Table had no columns/rows.'')]]\<rparr>], [''BOM''])"
    by simp
  with a b acc h show ?thesis by (intro conjI)
qed

subsection \<open>Row normalization\<close>

text \<open>
  What \<open>normalizeRows\<close> does emit: the keys of a normalized row are the declared columns
  other than \<open>__proto__\<close>, and the cell of a column is the empty string when \<open>r?.[c]\<close> is
  \<open>null\<close> or \<open>undefined\<close>, and \<open>String(r?.[c])\<close> otherwise. The example of the
  specification comes out as stated there.
\<close>

lemma obj_set_keys:
  "fst ` set (obj_set out c v) = (if c = ''__proto__'' then fst ` set out else insert c (fst ` set out))"
  by (simp add: obj_set_def dom_update[unfolded dom_map_of_conv_image_fst] insert_commute)

lemma normalizeRow_keys:
  assumes "normalizeRow inh r cs out = Inr out'"
  shows "fst ` set out' = fst ` set out \<union> (set cs - {''__proto__''})"
  using assms
proof (induction cs arbitrary: out)
  case Nil
  then show ?case by simp
next
  case (Cons c cs)
  then show ?case
    by (auto simp: Let_def obj_set_keys split: sum.splits if_splits)
qed

lemma map_of_obj_set:
  "c \<noteq> ''__proto__'' \<Longrightarrow> map_of (obj_set out c v) = (map_of out)(c \<mapsto> v)"
  by (simp add: obj_set_def update_conv')

lemma normalizeRow_cells:
  assumes "normalizeRow inh r cs out = Inr out'" and "c \<noteq> ''__proto__''"
  shows "if c \<in> set cs
         then \<exists>s. (if optProp inh r c = JNull \<or> optProp inh r c = JUndefined then Inr []
                    else toStr (optProp inh r c)) = Inr s \<and> map_of out' c = Some s
         else map_of out' c = map_of out c"
  using assms(1)
proof (induction cs arbitrary: out)
  case Nil
  then show ?case by simp
next
  case (Cons d cs)
  let ?cell = "\<lambda>k. if optProp inh r k = JNull \<or> optProp inh r k = JUndefined then Inr []
                    else toStr (optProp inh r k)"
  from Cons.prems obtain s where s: "?cell d = Inr s"
    and rest: "normalizeRow inh r cs (obj_set out d s) = Inr out'"
    by (auto simp: Let_def split: sum.splits if_splits)
  note IH = Cons.IH[OF rest]
  show ?case
  proof (cases "c \<in> set cs")
    case True
    with IH show ?thesis by simp
  next
    case False
    with IH have m: "map_of out' c = map_of (obj_set out d s) c" by simp
    show ?thesis
    proof (cases "c = d")
      case True
      with m s assms(2) False show ?thesis by (auto simp: map_of_obj_set split: if_splits)
    next
      case ne: False
      with m False show ?thesis
        by (cases "d = ''__proto__''") (simp_all add: obj_set_def update_conv')
    qed
  qed
qed

lemma normalizeRows_example:
  "normalizeRows es_inherited [''id'', ''note''] [JObj [(''id'', JNum 5)]]
     = Inr [[(''id'', ''5''), (''note'', [])]]
   \<and> askRow es_inherited (JObj [(''id'', JNum 5)]) [''id'', ''note''] []
     = Inr [(''id'', ''5''), (''note'', [])]"
  by code_simp

text \<open>
  C6. Row normalization does not emit the empty string for every cell that the row lacks.
  The row \<open>{}\<close> has no value for the column \<open>constructor\<close>, but \<open>r?.[c]\<close> reads through
  the prototype chain and finds \<open>Object.prototype.constructor\<close>: in both routes the cell
  is the text of that function, not the empty string.
\<close>

theorem normalize_inherited_key:
  "normalizeRows es_inherited [''constructor''] [JObj []]
     = Inr [[(''constructor'', ''function Object() { [native code] }'')]]
   \<and> askRow es_inherited (JObj []) [''constructor''] []
     = Inr [(''constructor'', ''function Object() { [native code] }'')]"
  by (simp add: normalizeRows_def optProp_def member_def es_inherited_def native_function_def
      nullish_or_def obj_set_def)

section \<open>Properties of polling and of the upload route\<close>

text \<open>
  The loop of the upload route ends exactly when the status source lets it: it never ends
  on a source that stays away from \<open>completed\<close> and \<open>failed\<close>, and it returns at the first
  \<open>completed\<close>, after one fetch per status seen and one sleep between two fetches.
\<close>

lemma pollBatch_stuck_aux:
  assumes "pollBatch retrieve tm w = Some y"
  shows "(\<forall>k. \<exists>b. retrieve k = Inr b \<and> batch_status b \<noteq> ''completed'' \<and> batch_status b \<noteq> ''failed'')
         \<longrightarrow> False"
proof (rule pollBatch.raw_induct[OF _ assms])
  fix poll :: "(nat \<Rightarrow> exn + batch) \<Rightarrow> timing \<Rightarrow> world \<Rightarrow> (poll_outcome \<times> world) option"
    and r t v z
  assume IH: "\<And>r t v z. poll r t v = Some z \<Longrightarrow>
      (\<forall>k. \<exists>b. r k = Inr b \<and> batch_status b \<noteq> ''completed'' \<and> batch_status b \<noteq> ''failed'') \<longrightarrow> False"
    and step: "(case r (fetches v) of
        Inl e \<Rightarrow> Some (PollThrew e, after_fetch t v)
      | Inr b \<Rightarrow>
          (if batch_status b = ''completed'' then Some (PollCompleted, after_fetch t v)
           else if batch_status b = ''failed'' then Some (PollFailed b, after_fetch t v)
           else poll r t (after_sleep t 1500 (after_fetch t v)))) = Some z"
  show "(\<forall>k. \<exists>b. r k = Inr b \<and> batch_status b \<noteq> ''completed'' \<and> batch_status b \<noteq> ''failed'') \<longrightarrow> False"
  proof
    assume never: "\<forall>k. \<exists>b. r k = Inr b \<and> batch_status b \<noteq> ''completed'' \<and> batch_status b \<noteq> ''failed''"
    then obtain b where b: "r (fetches v) = Inr b"
      "batch_status b \<noteq> ''completed''" "batch_status b \<noteq> ''failed''" by blast
    with step have "poll r t (after_sleep t 1500 (after_fetch t v)) = Some z" by simp
    from IH[OF this] never show False by blast
  qed
qed

lemma pollBatch_never_ends:
  assumes "\<forall>k. \<exists>b. retrieve k = Inr b \<and> batch_status b \<noteq> ''completed'' \<and> batch_status b \<noteq> ''failed''"
  shows "pollBatch retrieve tm w = None"
  using pollBatch_stuck_aux[of retrieve tm w] assms by (cases "pollBatch retrieve tm w") auto

lemma pollBatch_reaches:
  assumes "\<forall>m<n. \<exists>b. retrieve (fetches w + m) = Inr b \<and> batch_status b \<noteq> ''completed'' \<and> batch_status b \<noteq> ''failed''"
    and "retrieve (fetches w + n) = Inr b" and "batch_status b = ''completed''"
  shows "\<exists>w'. pollBatch retrieve tm w = Some (PollCompleted, w')
           \<and> fetches w' = fetches w + n + 1 \<and> sleeps w' = sleeps w + n
           \<and> clock w' \<ge> clock w + 1500 * int n"
  using assms
proof (induction n arbitrary: w)
  case 0
  then show ?case by (subst pollBatch.simps) (simp add: after_fetch_def)
next
  case (Suc n)
  let ?w = "after_sleep tm 1500 (after_fetch tm w)"
  have f: "fetches ?w = Suc (fetches w)" by (simp add: after_sleep_def after_fetch_def)
  from Suc.prems(1) obtain b0 where b0: "retrieve (fetches w) = Inr b0"
    "batch_status b0 \<noteq> ''completed''" "batch_status b0 \<noteq> ''failed''" by force
  have "\<forall>m<n. \<exists>b. retrieve (fetches ?w + m) = Inr b \<and> batch_status b \<noteq> ''completed'' \<and> batch_status b \<noteq> ''failed''"
    using Suc.prems(1) f by (metis Suc_less_eq add_Suc_right add_Suc)
  moreover have "retrieve (fetches ?w + n) = Inr b" using Suc.prems(2) f by simp
  ultimately obtain w' where w': "pollBatch retrieve tm ?w = Some (PollCompleted, w')"
    "fetches w' = fetches ?w + n + 1" "sleeps w' = sleeps ?w + n" "clock w' \<ge> clock ?w + 1500 * int n"
    using Suc.IH[of ?w] Suc.prems(3) by blast
  have "pollBatch retrieve tm w = pollBatch retrieve tm ?w"
    using b0 by (subst pollBatch.simps) simp
  with w' show ?case by (auto simp: after_sleep_def after_fetch_def)
qed

text \<open>
  The loop of \<open>waitForVectorStoreReady\<close> is bounded: on a source that never yields
  \<open>completed\<close> it throws the timeout error with the status it saw last, at the first fetch
  that returns more than \<open>timeoutMs\<close> after the start.
\<close>

lemma waitLoop_times_out:
  assumes never: "\<forall>k. \<exists>vs. retrieve k = Inr vs \<and> vs_status vs \<noteq> ''completed''"
  shows "\<exists>vs w'. waitLoop retrieve tm vid timeoutMs start w
            = Some (Inl (Exn (Some (timeout_message vid (vs_status vs)))), w')
          \<and> retrieve (fetches w' - 1) = Inr vs
          \<and> fetches w < fetches w'
          \<and> clock w' - start > timeoutMs"
proof (induction "nat (timeoutMs - (clock w - start) + 1500)" arbitrary: w rule: less_induct)
  case less
  let ?w1 = "after_fetch tm w"
  from never obtain vs where vs: "retrieve (fetches w) = Inr vs" "vs_status vs \<noteq> ''completed''"
    by blast
  show ?case
  proof (cases "clock ?w1 - start > timeoutMs")
    case True
    with vs have "waitLoop retrieve tm vid timeoutMs start w
            = Some (Inl (Exn (Some (timeout_message vid (vs_status vs)))), ?w1)"
      by (subst waitLoop.simps) simp
    with True vs show ?thesis by (auto simp: after_fetch_def)
  next
    case False
    let ?w2 = "after_sleep tm 1500 ?w1"
    from False have "nat (timeoutMs - (clock ?w2 - start) + 1500) < nat (timeoutMs - (clock w - start) + 1500)"
      by (simp add: after_sleep_def after_fetch_def)
    from less[OF this] obtain vs' w' where r: "waitLoop retrieve tm vid timeoutMs start ?w2
            = Some (Inl (Exn (Some (timeout_message vid (vs_status vs')))), w')"
          "retrieve (fetches w' - 1) = Inr vs'" "fetches ?w2 < fetches w'" "clock w' - start > timeoutMs"
      by blast
    have "waitLoop retrieve tm vid timeoutMs start w = waitLoop retrieve tm vid timeoutMs start ?w2"
      using vs False by (subst waitLoop.simps) simp
    with r show ?thesis by (auto simp: after_sleep_def after_fetch_def)
  qed
qed

text \<open>
  C1. Not every polling loop is bounded. On a job whose status stays \<open>in_progress\<close> the
  upload route never responds: its loop has no timeout. On the same status source the
  loop of \<open>waitForVectorStoreReady\<close> throws the timeout error with the last status, here
  after 72 fetches with the default timeout of 120 seconds.
\<close>

theorem upload_poll_unbounded:
  "uploadHandler True
     \<lparr>toFile = None, files_create = Inr ''file-1'', vectorStores_create = Inr ''vs_1'',
      fileBatches_create = Inr ''vsfb_1'',
      fileBatches_retrieve = (\<lambda>k. Inr \<lparr>batch_status = ''in_progress'', batch_detail = []\<rparr>),
      files_list = Inr []\<rparr>
     \<lparr>fetch_ms = (\<lambda>k. 200), oversleep = (\<lambda>k. 0)\<rparr> \<lparr>clock = 0, fetches = 0, sleeps = 0\<rparr>
   = None
   \<and> waitForVectorStoreReady (\<lambda>k. Inr \<lparr>vs_status = ''in_progress'', vs_detail = []\<rparr>)
       \<lparr>fetch_ms = (\<lambda>k. 200), oversleep = (\<lambda>k. 0)\<rparr> ''vs_1'' None \<lparr>clock = 0, fetches = 0, sleeps = 0\<rparr>
     = Some (Inl (Exn (Some ''Timed out waiting for vector store vs_1 to be ready (last status: in_progress)'')),
             \<lparr>clock = 120900, fetches = 72, sleeps = 71\<rparr>)"
proof -
  have "pollBatch (\<lambda>k. Inr \<lparr>batch_status = ''in_progress'', batch_detail = []\<rparr>)
          \<lparr>fetch_ms = (\<lambda>k. 200), oversleep = (\<lambda>k. 0)\<rparr> \<lparr>clock = 0, fetches = 0, sleeps = 0\<rparr> = None"
    by (rule pollBatch_never_ends) simp
  then have a: "uploadHandler True
     \<lparr>toFile = None, files_create = Inr ''file-1'', vectorStores_create = Inr ''vs_1'',
      fileBatches_create = Inr ''vsfb_1'',
      fileBatches_retrieve = (\<lambda>k. Inr \<lparr>batch_status = ''in_progress'', batch_detail = []\<rparr>),
      files_list = Inr []\<rparr>
     \<lparr>fetch_ms = (\<lambda>k. 200), oversleep = (\<lambda>k. 0)\<rparr> \<lparr>clock = 0, fetches = 0, sleeps = 0\<rparr> = None"
    by (simp add: uploadHandler_def uploadCreate_def assertString_def trim_def is_space_def)
  have b: "waitForVectorStoreReady (\<lambda>k. Inr \<lparr>vs_status = ''in_progress'', vs_detail = []\<rparr>)
       \<lparr>fetch_ms = (\<lambda>k. 200), oversleep = (\<lambda>k. 0)\<rparr> ''vs_1'' None \<lparr>clock = 0, fetches = 0, sleeps = 0\<rparr>
     = Some (Inl (Exn (Some ''Timed out waiting for vector store vs_1 to be ready (last status: in_progress)'')),
             \<lparr>clock = 120900, fetches = 72, sleeps = 71\<rparr>)"
    by code_simp
  from a b show ?thesis by simp
qed

text \<open>
  C4. When the first status fetched for the indexing job is \<open>failed\<close>, the upload route
  answers with status 500 and the batch-failed body right after that fetch: it has made
  one fetch and has not slept.
\<close>

theorem upload_batch_failed_immediately:
  assumes "uploadCreate rm = Inr (fileId, vectorStoreId, batchId)"
    and "fileBatches_retrieve rm (fetches w) = Inr b"
    and "batch_status b = ''failed''"
  shows "uploadHandler True rm tm w =
           Some (\<lparr>up_status = 500, up_body = BatchFailed fileId vectorStoreId batchId b\<rparr>, after_fetch tm w)
       \<and> fetches (after_fetch tm w) = fetches w + 1
       \<and> sleeps (after_fetch tm w) = sleeps w
       \<and> \<not> upload_ok (BatchFailed fileId vectorStoreId batchId b)"
proof -
  have "pollBatch (fileBatches_retrieve rm) tm w = Some (PollFailed b, after_fetch tm w)"
    using assms(2,3) by (subst pollBatch.simps) simp
  with assms(1) show ?thesis by (simp add: uploadHandler_def after_fetch_def)
qed

theorem upload_batch_failed_immediately_witness:
  "uploadCreate \<lparr>toFile = None, files_create = Inr ''file-1'', vectorStores_create = Inr ''vs_1'',
      fileBatches_create = Inr ''vsfb_1'',
      fileBatches_retrieve = (\<lambda>k. Inr \<lparr>batch_status = ''failed'', batch_detail = ''server_error''\<rparr>),
      files_list = Inr []\<rparr> = Inr (''file-1'', ''vs_1'', ''vsfb_1'')
   \<and> uploadHandler True
     \<lparr>toFile = None, files_create = Inr ''file-1'', vectorStores_create = Inr ''vs_1'',
      fileBatches_create = Inr ''vsfb_1'',
      fileBatches_retrieve = (\<lambda>k. Inr \<lparr>batch_status = ''failed'', batch_detail = ''server_error''\<rparr>),
      files_list = Inr []\<rparr>
     \<lparr>fetch_ms = (\<lambda>k. 200), oversleep = (\<lambda>k. 0)\<rparr> \<lparr>clock = 0, fetches = 0, sleeps = 0\<rparr>
   = Some (\<lparr>up_status = 500,
            up_body = BatchFailed ''file-1'' ''vs_1'' ''vsfb_1''
                        \<lparr>batch_status = ''failed'', batch_detail = ''server_error''\<rparr>\<rparr>,
           \<lparr>clock = 200, fetches = 1, sleeps = 0\<rparr>)"
proof -
  let ?rm = "\<lparr>toFile = None, files_create = Inr ''file-1'', vectorStores_create = Inr ''vs_1'',
      fileBatches_create = Inr ''vsfb_1'',
      fileBatches_retrieve = (\<lambda>k. Inr \<lparr>batch_status = ''failed'', batch_detail = ''server_error''\<rparr>),
      files_list = Inr []\<rparr>"
  let ?tm = "\<lparr>fetch_ms = (\<lambda>k. 200), oversleep = (\<lambda>k. 0)\<rparr>"
  let ?w = "\<lparr>clock = 0, fetches = 0, sleeps = 0\<rparr>"
  have a: "uploadCreate ?rm = Inr (''file-1'', ''vs_1'', ''vsfb_1'')" by code_simp
  have b: "fileBatches_retrieve ?rm (fetches ?w) = Inr \<lparr>batch_status = ''failed'', batch_detail = ''server_error''\<rparr>"
    by simp
  have c: "batch_status \<lparr>batch_status = ''failed'', batch_detail = ''server_error''\<rparr> = ''failed''" by simp
  from upload_batch_failed_immediately [OF a b c, of ?tm] a show ?thesis
    by (simp add: after_fetch_def)
qed

text \<open>
  C3. When the indexing job completes and no entry of the vector store's file list has the
  identifier of the uploaded file, the upload route answers with status 500, \<open>ok: false\<close>,
  the error \<open>File not found in vector store after batch completed\<close> and the identifiers and
  statuses of the entries that were listed. The error text differs from those of the other
  failures of the route.
\<close>

theorem upload_file_missing_after_completion:
  assumes "uploadCreate rm = Inr (fileId, vectorStoreId, batchId)"
    and "pollBatch (fileBatches_retrieve rm) tm w = Some (PollCompleted, w')"
    and "files_list rm = Inr filesInStore"
    and "\<forall>x\<in>set filesInStore. sf_id x \<noteq> fileId"
  shows "uploadHandler True rm tm w =
           Some (\<lparr>up_status = 500,
                  up_body = FileNotFound fileId vectorStoreId batchId
                              (map (\<lambda>x. (sf_id x, sf_status x)) filesInStore)\<rparr>, w')
       \<and> \<not> upload_ok (FileNotFound fileId vectorStoreId batchId (map (\<lambda>x. (sf_id x, sf_status x)) filesInStore))
       \<and> upload_error (FileNotFound fileId vectorStoreId batchId (map (\<lambda>x. (sf_id x, sf_status x)) filesInStore))
           = Some ''File not found in vector store after batch completed''
       \<and> ''File not found in vector store after batch completed'' \<noteq> ''File batch failed during vector store processing''
       \<and> ''File not found in vector store after batch completed'' \<noteq> ''Vector store indexing failed for this file''
       \<and> ''File not found in vector store after batch completed'' \<noteq> ''Upload failed''"
proof -
  from assms(4) have "find (\<lambda>x. sf_id x = fileId) filesInStore = None"
    by (simp add: find_None_iff)
  with assms(1,2,3) show ?thesis by (simp add: uploadHandler_def uploadCheck_def)
qed

theorem upload_file_missing_after_completion_witness:
  "uploadCreate \<lparr>toFile = None, files_create = Inr ''file-1'', vectorStores_create = Inr ''vs_1'',
      fileBatches_create = Inr ''vsfb_1'',
      fileBatches_retrieve = (\<lambda>k. if k = 0 then Inr \<lparr>batch_status = ''in_progress'', batch_detail = []\<rparr>
                                   else Inr \<lparr>batch_status = ''completed'', batch_detail = []\<rparr>),
      files_list = Inr [\<lparr>sf_id = ''file-0'', sf_status = ''completed'', sf_last_error = None\<rparr>]\<rparr>
     = Inr (''file-1'', ''vs_1'', ''vsfb_1'')
   \<and> uploadHandler True
     \<lparr>toFile = None, files_create = Inr ''file-1'', vectorStores_create = Inr ''vs_1'',
      fileBatches_create = Inr ''vsfb_1'',
      fileBatches_retrieve = (\<lambda>k. if k = 0 then Inr \<lparr>batch_status = ''in_progress'', batch_detail = []\<rparr>
                                   else Inr \<lparr>batch_status = ''completed'', batch_detail = []\<rparr>),
      files_list = Inr [\<lparr>sf_id = ''file-0'', sf_status = ''completed'', sf_last_error = None\<rparr>]\<rparr>
     \<lparr>fetch_ms = (\<lambda>k. 200), oversleep = (\<lambda>k. 0)\<rparr> \<lparr>clock = 0, fetches = 0, sleeps = 0\<rparr>
   = Some (\<lparr>up_status = 500,
            up_body = FileNotFound ''file-1'' ''vs_1'' ''vsfb_1'' [(''file-0'', ''completed'')]\<rparr>,
           \<lparr>clock = 1900, fetches = 2, sleeps = 1\<rparr>)"
proof -
  let ?rm = "\<lparr>toFile = None, files_create = Inr ''file-1'', vectorStores_create = Inr ''vs_1'',
      fileBatches_create = Inr ''vsfb_1'',
      fileBatches_retrieve = (\<lambda>k. if k = 0 then Inr \<lparr>batch_status = ''in_progress'', batch_detail = []\<rparr>
                                   else Inr \<lparr>batch_status = ''completed'', batch_detail = []\<rparr>),
      files_list = Inr [\<lparr>sf_id = ''file-0'', sf_status = ''completed'', sf_last_error = None\<rparr>]\<rparr>"
  let ?tm = "\<lparr>fetch_ms = (\<lambda>k. 200), oversleep = (\<lambda>k. 0)\<rparr>"
  let ?w = "\<lparr>clock = 0, fetches = 0, sleeps = 0\<rparr>"
  have a: "uploadCreate ?rm = Inr (''file-1'', ''vs_1'', ''vsfb_1'')" by code_simp
  have b: "pollBatch (fileBatches_retrieve ?rm) ?tm ?w
             = Some (PollCompleted, \<lparr>clock = 1900, fetches = 2, sleeps = 1\<rparr>)" by code_simp
  have c: "files_list ?rm = Inr [\<lparr>sf_id = ''file-0'', sf_status = ''completed'', sf_last_error = None\<rparr>]"
    by simp
  have d: "\<forall>x\<in>set [\<lparr>sf_id = ''file-0'', sf_status = ''completed'', sf_last_error = None\<rparr>]. sf_id x \<noteq> ''file-1''"
    by simp
  from upload_file_missing_after_completion [OF a b c d] a show ?thesis by simp
qed

text \<open>
  C2. When the indexing job completes and the entry of the uploaded file in the vector
  store's file list has status \<open>failed\<close>, the upload route answers with status 500,
  \<open>ok: false\<close> and the entry's \<open>last_error\<close> as the service gave it. A success response is
  only ever sent when the job completed and the file has an entry whose status is not
  \<open>failed\<close>.
\<close>

theorem upload_per_file_failure:
  assumes "uploadCreate rm = Inr (fileId, vectorStoreId, batchId)"
    and "pollBatch (fileBatches_retrieve rm) tm w = Some (PollCompleted, w')"
    and "files_list rm = Inr filesInStore"
    and "find (\<lambda>x. sf_id x = fileId) filesInStore = Some entry"
    and "sf_status entry = ''failed''"
  shows "uploadHandler True rm tm w =
           Some (\<lparr>up_status = 500,
                  up_body = IndexingFailed fileId vectorStoreId batchId
                              (sf_id entry, sf_status entry, sf_last_error entry)\<rparr>, w')
       \<and> \<not> upload_ok (IndexingFailed fileId vectorStoreId batchId
                           (sf_id entry, sf_status entry, sf_last_error entry))
       \<and> (\<forall>has_file rm' tm' v resp v'.
             uploadHandler has_file rm' tm' v = Some (resp, v') \<and> upload_ok (up_body resp)
             \<longrightarrow> (\<exists>fid vsid bid fs e.
                    uploadCreate rm' = Inr (fid, vsid, bid)
                  \<and> pollBatch (fileBatches_retrieve rm') tm' v = Some (PollCompleted, v')
                  \<and> files_list rm' = Inr fs
                  \<and> find (\<lambda>x. sf_id x = fid) fs = Some e
                  \<and> sf_status e \<noteq> ''failed''))"
proof -
  have first: "uploadHandler True rm tm w =
           Some (\<lparr>up_status = 500,
                  up_body = IndexingFailed fileId vectorStoreId batchId
                              (sf_id entry, sf_status entry, sf_last_error entry)\<rparr>, w')"
    using assms by (simp add: uploadHandler_def uploadCheck_def)
  have second: "\<exists>fid vsid bid fs e.
                    uploadCreate rm' = Inr (fid, vsid, bid)
                  \<and> pollBatch (fileBatches_retrieve rm') tm' v = Some (PollCompleted, v')
                  \<and> files_list rm' = Inr fs
                  \<and> find (\<lambda>x. sf_id x = fid) fs = Some e
                  \<and> sf_status e \<noteq> ''failed''"
    if h: "uploadHandler has_file rm' tm' v = Some (resp, v')" and ok: "upload_ok (up_body resp)"
    for has_file rm' tm' v resp v'
  proof -
    from h ok obtain fid vsid bid where c: "uploadCreate rm' = Inr (fid, vsid, bid)"
      by (cases "uploadCreate rm'")
         (auto simp: uploadHandler_def uploadCaught_def split: if_splits)
    from h ok c have p: "pollBatch (fileBatches_retrieve rm') tm' v = Some (PollCompleted, v')"
      and r: "resp = uploadCheck rm' fid vsid bid"
      by (auto simp: uploadHandler_def uploadCaught_def
          split: if_splits option.splits poll_outcome.splits)
    from r ok obtain fs where fs: "files_list rm' = Inr fs"
      by (cases "files_list rm'") (auto simp: uploadCheck_def uploadCaught_def)
    from r ok fs obtain e where "find (\<lambda>x. sf_id x = fid) fs = Some e" "sf_status e \<noteq> ''failed''"
      by (cases "find (\<lambda>x. sf_id x = fid) fs")
         (auto simp: uploadCheck_def split: if_splits)
    with c p fs show ?thesis by blast
  qed
  from first second show ?thesis by (simp del: split_paired_All split_paired_Ex) blast
qed

theorem upload_per_file_failure_witness:
  "uploadCreate \<lparr>toFile = None, files_create = Inr ''file-1'', vectorStores_create = Inr ''vs_1'',
      fileBatches_create = Inr ''vsfb_1'',
      fileBatches_retrieve = (\<lambda>k. if k = 0 then Inr \<lparr>batch_status = ''in_progress'', batch_detail = []\<rparr>
                                   else Inr \<lparr>batch_status = ''completed'', batch_detail = []\<rparr>),
      files_list = Inr [\<lparr>sf_id = ''file-1'', sf_status = ''failed'', sf_last_error = Some ''unsupported_file''\<rparr>]\<rparr>
     = Inr (''file-1'', ''vs_1'', ''vsfb_1'')
   \<and> uploadHandler True
     \<lparr>toFile = None, files_create = Inr ''file-1'', vectorStores_create = Inr ''vs_1'',
      fileBatches_create = Inr ''vsfb_1'',
      fileBatches_retrieve = (\<lambda>k. if k = 0 then Inr \<lparr>batch_status = ''in_progress'', batch_detail = []\<rparr>
                                   else Inr \<lparr>batch_status = ''completed'', batch_detail = []\<rparr>),
      files_list = Inr [\<lparr>sf_id = ''file-1'', sf_status = ''failed'', sf_last_error = Some ''unsupported_file''\<rparr>]\<rparr>
     \<lparr>fetch_ms = (\<lambda>k. 200), oversleep = (\<lambda>k. 0)\<rparr> \<lparr>clock = 0, fetches = 0, sleeps = 0\<rparr>
   = Some (\<lparr>up_status = 500,
            up_body = IndexingFailed ''file-1'' ''vs_1'' ''vsfb_1''
                        (''file-1'', ''failed'', Some ''unsupported_file'')\<rparr>,
           \<lparr>clock = 1900, fetches = 2, sleeps = 1\<rparr>)"
proof -
  let ?e = "\<lparr>sf_id = ''file-1'', sf_status = ''failed'', sf_last_error = Some ''unsupported_file''\<rparr>"
  let ?rm = "\<lparr>toFile = None, files_create = Inr ''file-1'', vectorStores_create = Inr ''vs_1'',
      fileBatches_create = Inr ''vsfb_1'',
      fileBatches_retrieve = (\<lambda>k. if k = 0 then Inr \<lparr>batch_status = ''in_progress'', batch_detail = []\<rparr>
                                   else Inr \<lparr>batch_status = ''completed'', batch_detail = []\<rparr>),
      files_list = Inr [?e]\<rparr>"
  let ?tm = "\<lparr>fetch_ms = (\<lambda>k. 200), oversleep = (\<lambda>k. 0)\<rparr>"
  let ?w = "\<lparr>clock = 0, fetches = 0, sleeps = 0\<rparr>"
  have a: "uploadCreate ?rm = Inr (''file-1'', ''vs_1'', ''vsfb_1'')" by code_simp
  have b: "pollBatch (fileBatches_retrieve ?rm) ?tm ?w
             = Some (PollCompleted, \<lparr>clock = 1900, fetches = 2, sleeps = 1\<rparr>)" by code_simp
  have c: "files_list ?rm = Inr [?e]" by simp
  have d: "find (\<lambda>x. sf_id x = ''file-1'') [?e] = Some ?e" by simp
  have e: "sf_status ?e = ''failed''" by simp
  from upload_per_file_failure [OF a b c d e] a show ?thesis by simp
qed

end
